theory Spec2Isabelle
  imports Main
begin

section \<open>JSON values and the Python operations the formatters use\<close>

text \<open>
  The formatters of \<^verbatim>\<open>server.py\<close> work on the result of \<^verbatim>\<open>response.json()\<close>: \<^verbatim>\<open>None\<close>,
  booleans, integers, strings, lists and dictionaries. A dictionary is an association
  list in insertion order (the order \<^verbatim>\<open>items()\<close> iterates in); a parsed JSON object
  has distinct keys, and a lookup takes the first entry of a key. A character is a code
  point below 256. Numbers with a fractional part are outside the model.
\<close>

datatype json =
    JNull
  | JBool bool
  | JInt int
  | JStr string
  | JList "json list"
  | JObj "(string \<times> json) list"

text \<open>The exceptions that the modelled code can raise; \<^verbatim>\<open>ValueError\<close> carries its message.\<close>

datatype py_error = AttributeError | TypeError | ValueError string

definition ebind :: "'e + 'a \<Rightarrow> ('a \<Rightarrow> 'e + 'b) \<Rightarrow> 'e + 'b" where
  "ebind m f = (case m of Inl e \<Rightarrow> Inl e | Inr x \<Rightarrow> f x)"

fun each :: "('a \<Rightarrow> 'e + 'b) \<Rightarrow> 'a list \<Rightarrow> 'e + 'b list" where
  "each f [] = Inr []"
| "each f (x # xs) = ebind (f x) (\<lambda>y. ebind (each f xs) (\<lambda>ys. Inr (y # ys)))"

text \<open>Truth value of an object, as \<^verbatim>\<open>if x\<close>, \<^verbatim>\<open>not x\<close> and \<^verbatim>\<open>x or y\<close> test it.\<close>

fun truthy :: "json \<Rightarrow> bool" where
  "truthy JNull = False"
| "truthy (JBool b) = b"
| "truthy (JInt i) = (i \<noteq> 0)"
| "truthy (JStr s) = (s \<noteq> [])"
| "truthy (JList xs) = (xs \<noteq> [])"
| "truthy (JObj kvs) = (kvs \<noteq> [])"

text \<open>\<^verbatim>\<open>x.get(k, d)\<close>: only a dictionary has the method.\<close>

fun dict_get :: "json \<Rightarrow> string \<Rightarrow> json \<Rightarrow> py_error + json" where
  "dict_get (JObj kvs) k d = Inr (case map_of kvs k of None \<Rightarrow> d | Some v \<Rightarrow> v)"
| "dict_get _ k d = Inl AttributeError"

text \<open>\<^verbatim>\<open>x == y\<close>: a boolean is the integer 0 or 1, lists compare element by element,
  dictionaries by their entries whatever the order.\<close>

fun py_eq :: "json \<Rightarrow> json \<Rightarrow> bool" where
  "py_eq JNull JNull = True"
| "py_eq (JBool a) (JBool b) = (a = b)"
| "py_eq (JBool a) (JInt i) = ((if a then 1 else 0) = i)"
| "py_eq (JInt i) (JBool a) = (i = (if a then 1 else 0))"
| "py_eq (JInt i) (JInt j) = (i = j)"
| "py_eq (JStr s) (JStr t) = (s = t)"
| "py_eq (JList xs) (JList ys) = list_all2 py_eq xs ys"
| "py_eq (JObj a) (JObj b) =
     (length a = length b \<and>
      list_all (\<lambda>(k, v). case map_of b k of None \<Rightarrow> False | Some w \<Rightarrow> py_eq v w) a)"
| "py_eq _ _ = False"

text \<open>Iteration (\<^verbatim>\<open>for x in v\<close>): a string yields its characters, a dictionary its keys.\<close>

fun py_iter :: "json \<Rightarrow> py_error + json list" where
  "py_iter (JList xs) = Inr xs"
| "py_iter (JStr s) = Inr (map (\<lambda>c. JStr [c]) s)"
| "py_iter (JObj kvs) = Inr (map (\<lambda>kv. JStr (fst kv)) kvs)"
| "py_iter _ = Inl TypeError"

fun py_len :: "json \<Rightarrow> py_error + nat" where
  "py_len (JList xs) = Inr (length xs)"
| "py_len (JStr s) = Inr (length s)"
| "py_len (JObj kvs) = Inr (length kvs)"
| "py_len _ = Inl TypeError"

text \<open>\<^verbatim>\<open>sep.join(xs)\<close> on strings, and on arbitrary objects, where an item that is not a
  string raises \<^verbatim>\<open>TypeError\<close>.\<close>

fun join :: "string \<Rightarrow> string list \<Rightarrow> string" where
  "join sep [] = []"
| "join sep [x] = x"
| "join sep (x # y # ys) = x @ sep @ join sep (y # ys)"

fun as_str :: "json \<Rightarrow> py_error + string" where
  "as_str (JStr s) = Inr s"
| "as_str _ = Inl TypeError"

definition py_join :: "string \<Rightarrow> json list \<Rightarrow> py_error + string" where
  "py_join sep xs = ebind (each as_str xs) (\<lambda>ss. Inr (join sep ss))"

text \<open>\<^verbatim>\<open>s.strip()\<close>: the white space of \<^verbatim>\<open>str.isspace\<close> among the code points below 256.\<close>

definition is_space :: "char \<Rightarrow> bool" where
  "is_space c = ((of_char c :: nat) \<in> {9, 10, 11, 12, 13, 28, 29, 30, 31, 32, 133, 160})"

definition strip :: "string \<Rightarrow> string" where
  "strip s = rev (dropWhile is_space (rev (dropWhile is_space s)))"

text \<open>\<^verbatim>\<open>str(i)\<close> of an integer.\<close>

fun nat_digits :: "nat \<Rightarrow> string" where
  "nat_digits n =
     (if n < 10 then [''0123456789'' ! n]
      else nat_digits (n div 10) @ [''0123456789'' ! (n mod 10)])"

declare nat_digits.simps [simp del]

definition str_int :: "int \<Rightarrow> string" where
  "str_int i = (if i < 0 then CHR ''-'' # nat_digits (nat (- i)) else nat_digits (nat i))"

text \<open>\<^verbatim>\<open>repr(s)\<close> of a string: single quotes unless the string has a single quote and no
  double quote; the quote and the backslash escaped, control and unprintable characters
  written \<^verbatim>\<open>\t\<close>, \<^verbatim>\<open>\n\<close>, \<^verbatim>\<open>\r\<close> or \<^verbatim>\<open>\xNN\<close>.\<close>

definition hex2 :: "nat \<Rightarrow> string" where
  "hex2 n = [''0123456789abcdef'' ! (n div 16), ''0123456789abcdef'' ! (n mod 16)]"

definition repr_char :: "char \<Rightarrow> char \<Rightarrow> string" where
  "repr_char q c =
     (let n = (of_char c :: nat) in
      if c = q \<or> c = CHR 0x5C then [CHR 0x5C, c]
      else if n = 9 then [CHR 0x5C, CHR ''t'']
      else if n = 10 then [CHR 0x5C, CHR ''n'']
      else if n = 13 then [CHR 0x5C, CHR ''r'']
      else if n < 32 \<or> n = 127 \<or> (128 \<le> n \<and> n \<le> 160) \<or> n = 173
        then [CHR 0x5C, CHR ''x''] @ hex2 n
      else [c])"

definition repr_str :: "string \<Rightarrow> string" where
  "repr_str s =
     (let q = (if CHR 0x27 \<in> set s \<and> CHR 0x22 \<notin> set s then CHR 0x22 else CHR 0x27)
      in q # concat (map (repr_char q) s) @ [q])"

fun py_repr :: "json \<Rightarrow> string" where
  "py_repr JNull = ''None''"
| "py_repr (JBool b) = (if b then ''True'' else ''False'')"
| "py_repr (JInt i) = str_int i"
| "py_repr (JStr s) = repr_str s"
| "py_repr (JList xs) = ''['' @ join '', '' (map py_repr xs) @ '']''"
| "py_repr (JObj kvs) =
     ''{'' @ join '', '' (map (\<lambda>(k, v). repr_str k @ '': '' @ py_repr v) kvs) @ ''}''"

text \<open>\<^verbatim>\<open>str(x)\<close>, which is also what an f-string field \<^verbatim>\<open>{x}\<close> inserts: a string as it
  is, any other object by its \<^verbatim>\<open>repr\<close>.\<close>

fun py_str :: "json \<Rightarrow> string" where
  "py_str (JStr s) = s"
| "py_str v = py_repr v"

text \<open>\<^verbatim>\<open>json.dumps(x, indent=2)\<close> with the default \<^verbatim>\<open>ensure_ascii\<close>; the first argument of
  \<open>json_dumps\<close> is the nesting depth.\<close>

definition json_char :: "char \<Rightarrow> string" where
  "json_char c =
     (let n = (of_char c :: nat) in
      if c = CHR 0x22 then [CHR 0x5C, CHR 0x22]
      else if c = CHR 0x5C then [CHR 0x5C, CHR 0x5C]
      else if n = 8 then [CHR 0x5C, CHR ''b'']
      else if n = 9 then [CHR 0x5C, CHR ''t'']
      else if n = 10 then [CHR 0x5C, CHR ''n'']
      else if n = 12 then [CHR 0x5C, CHR ''f'']
      else if n = 13 then [CHR 0x5C, CHR ''r'']
      else if n < 32 \<or> 126 < n then [CHR 0x5C, CHR ''u'', CHR ''0'', CHR ''0''] @ hex2 n
      else [c])"

definition json_str :: "string \<Rightarrow> string" where
  "json_str s = CHR 0x22 # concat (map json_char s) @ [CHR 0x22]"

definition newline :: string where
  "newline = [CHR 0x0A]"

definition indent_of :: "nat \<Rightarrow> string" where
  "indent_of d = replicate (2 * d) CHR '' ''"

fun json_dumps :: "nat \<Rightarrow> json \<Rightarrow> string" where
  "json_dumps d JNull = ''null''"
| "json_dumps d (JBool b) = (if b then ''true'' else ''false'')"
| "json_dumps d (JInt i) = str_int i"
| "json_dumps d (JStr s) = json_str s"
| "json_dumps d (JList xs) =
     (if xs = [] then ''[]''
      else ''['' @ newline
        @ join ('','' @ newline) (map (\<lambda>x. indent_of (Suc d) @ json_dumps (Suc d) x) xs)
        @ newline @ indent_of d @ '']'')"
| "json_dumps d (JObj kvs) =
     (if kvs = [] then ''{}''
      else ''{'' @ newline
        @ join ('','' @ newline)
            (map (\<lambda>(k, v). indent_of (Suc d) @ json_str k @ '': '' @ json_dumps (Suc d) v) kvs)
        @ newline @ indent_of d @ ''}'')"

text \<open>The display name of a participant or speaker block, written three times in
  \<^verbatim>\<open>server.py\<close> (lines 183, 226 and 295):
  \<^verbatim>\<open>p.get("name") or p.get("email", "Unknown")\<close>.\<close>

definition display_name :: "json \<Rightarrow> py_error + json" where
  "display_name p =
     ebind (dict_get p ''name'' JNull) (\<lambda>n.
       if truthy n then Inr n else dict_get p ''email'' (JStr ''Unknown''))"


section \<open>The transcript formatter\<close>

definition placeholder :: string where
  "placeholder = ''*No transcript available*''"

text \<open>Lines 298-299: the text of a segment,
  \<^verbatim>\<open>"".join(w.get("text", "") for w in words).strip()\<close>. The generator is consumed before
  the items are checked to be strings.\<close>

definition segment_text :: "json \<Rightarrow> py_error + string" where
  "segment_text segment =
     ebind (dict_get segment ''words'' (JList [])) (\<lambda>words.
     ebind (py_iter words) (\<lambda>ws.
     ebind (each (\<lambda>w. dict_get w ''text'' (JStr [])) ws) (\<lambda>ts.
     ebind (py_join [] ts) (\<lambda>s. Inr (strip s)))))"

text \<open>Lines 294-299: what one iteration reads from its segment, the resolved speaker name
  first, then the text.\<close>

definition read_segment :: "json \<Rightarrow> py_error + json \<times> string" where
  "read_segment segment =
     ebind (dict_get segment ''speaker'' (JObj [])) (\<lambda>speaker_info.
     ebind (display_name speaker_info) (\<lambda>speaker_name.
     ebind (segment_text segment) (\<lambda>t. Inr (speaker_name, t))))"

text \<open>The three variables of the loop; \<^verbatim>\<open>current_speaker = None\<close> is \<open>JNull\<close>.\<close>

record turns =
  lines :: "string list"
  current_speaker :: json
  current_text :: "string list"

definition no_turns :: turns where
  "no_turns = \<lparr>lines = [], current_speaker = JNull, current_text = []\<rparr>"

definition turn_line :: "json \<Rightarrow> string list \<Rightarrow> string" where
  "turn_line speaker texts = ''**'' @ py_str speaker @ '':** '' @ join '' '' texts"

text \<open>Lines 309-310 and 315-316: the accumulated turn is appended only when
  \<^verbatim>\<open>current_speaker and current_text\<close> holds.\<close>

definition flush :: "turns \<Rightarrow> string list" where
  "flush st =
     (if truthy (current_speaker st) \<and> current_text st \<noteq> []
      then lines st @ [turn_line (current_speaker st) (current_text st)]
      else lines st)"

text \<open>Lines 301-312: the rest of the loop body, once the segment is read.\<close>

definition step :: "turns \<Rightarrow> json \<times> string \<Rightarrow> turns" where
  "step st r =
     (let speaker_name = fst r; text = snd r in
      if text = [] then st
      else if py_eq speaker_name (current_speaker st)
        then st\<lparr>current_text := current_text st @ [text]\<rparr>
      else \<lparr>lines = flush st, current_speaker = speaker_name, current_text = [text]\<rparr>)"

fun segments_loop :: "turns \<Rightarrow> json list \<Rightarrow> py_error + turns" where
  "segments_loop st [] = Inr st"
| "segments_loop st (segment # rest) =
     ebind (read_segment segment) (\<lambda>r. segments_loop (step st r) rest)"

text \<open>Lines 327-330: a segment of the mapping shape.\<close>

definition flat_segment :: "json \<Rightarrow> py_error + string" where
  "flat_segment seg =
     ebind (dict_get seg ''speaker'' (JStr ''Unknown'')) (\<lambda>speaker.
     ebind (dict_get seg ''text'' (JStr [])) (\<lambda>text.
       Inr (''**'' @ py_str speaker @ '':** '' @ py_str text)))"

text \<open>\<^verbatim>\<open>format_transcript\<close>, lines 278-336. The function returns
  \<^verbatim>\<open>transcript["text"]\<close> as it is, whatever its type, so the result is a JSON value.\<close>

definition format_transcript :: "json \<Rightarrow> py_error + json" where
  "format_transcript transcript =
     (if \<not> truthy transcript then Inr (JStr placeholder)
      else case transcript of
        JStr s \<Rightarrow> Inr transcript
      | JList segments \<Rightarrow>
          ebind (segments_loop no_turns segments) (\<lambda>st.
            let ls = flush st in
            Inr (JStr (if ls \<noteq> [] then join (newline @ newline) ls else placeholder)))
      | JObj kvs \<Rightarrow>
          (case map_of kvs ''text'' of
             Some t \<Rightarrow> Inr t
           | None \<Rightarrow>
               (case map_of kvs ''segments'' of
                  Some segments \<Rightarrow>
                    ebind (py_iter segments) (\<lambda>segs.
                    ebind (each flat_segment segs) (\<lambda>ls.
                      Inr (JStr (join (newline @ newline) ls))))
                | None \<Rightarrow> Inr (JStr (json_dumps 0 transcript))))
      | _ \<Rightarrow> Inr (JStr (py_str transcript)))"


section \<open>Dates\<close>

text \<open>
  \<^verbatim>\<open>datetime.fromisoformat\<close> belongs to the Python library, not to this repository, and
  what it accepts depends on the Python version: the formatters take it as the parameter
  \<open>fromisoformat\<close>, where \<open>None\<close> stands for the \<^verbatim>\<open>ValueError\<close> of a string that does not
  parse. Of the parsed value only the fields that \<^verbatim>\<open>strftime("%Y-%m-%d %H:%M")\<close> prints are
  kept. The year is printed with four digits, as the library documents it (the C library
  of some platforms drops the leading zeros of a year before 1000).
\<close>

record datetime =
  year :: nat
  month :: nat
  day :: nat
  hour :: nat
  minute :: nat

definition pad :: "nat \<Rightarrow> nat \<Rightarrow> string" where
  "pad w n = replicate (w - length (nat_digits n)) CHR ''0'' @ nat_digits n"

definition strftime_ymd_hm :: "datetime \<Rightarrow> string" where
  "strftime_ymd_hm dt =
     pad 4 (year dt) @ ''-'' @ pad 2 (month dt) @ ''-'' @ pad 2 (day dt)
       @ '' '' @ pad 2 (hour dt) @ '':'' @ pad 2 (minute dt)"

text \<open>\<^verbatim>\<open>created.replace("Z", "+00:00")\<close>: every \<^verbatim>\<open>Z\<close> of the string is replaced.\<close>

definition replace_Z :: "string \<Rightarrow> string" where
  "replace_Z s = concat (map (\<lambda>c. if c = CHR ''Z'' then ''+00:00'' else [c]) s)"

text \<open>Lines 173-179 of \<^verbatim>\<open>format_search_results\<close> and, word for word, lines 214-220 of
  \<^verbatim>\<open>format_conversation\<close>. Only a string has \<^verbatim>\<open>replace\<close>, and the \<^verbatim>\<open>AttributeError\<close> of
  another truthy value is not among the exceptions the \<^verbatim>\<open>try\<close> catches.\<close>

definition format_date :: "(string \<Rightarrow> datetime option) \<Rightarrow> json \<Rightarrow> py_error + json" where
  "format_date fromisoformat created =
     (if truthy created then
        (case created of
           JStr s \<Rightarrow>
             (case fromisoformat (replace_Z s) of
                Some dt \<Rightarrow> Inr (JStr (strftime_ymd_hm dt))
              | None \<Rightarrow> Inr created)
         | _ \<Rightarrow> Inl AttributeError)
      else Inr created)"


section \<open>The conversation list formatter\<close>

text \<open>\<^verbatim>\<open>participants[:3]\<close>: lists and strings can be sliced (slicing a dictionary raises
  \<^verbatim>\<open>TypeError\<close> up to Python 3.11).\<close>

fun py_take3 :: "json \<Rightarrow> py_error + json" where
  "py_take3 (JList xs) = Inr (JList (take 3 xs))"
| "py_take3 (JStr s) = Inr (JStr (take 3 s))"
| "py_take3 _ = Inl TypeError"

text \<open>Lines 183-186: the participants shown for a summary.\<close>

definition participant_str :: "json \<Rightarrow> py_error + string" where
  "participant_str participants =
     ebind (py_take3 participants) (\<lambda>first3.
     ebind (py_iter first3) (\<lambda>ps.
     ebind (each display_name ps) (\<lambda>participant_names.
     ebind (py_join '', '' participant_names) (\<lambda>s.
     ebind (py_len participants) (\<lambda>n.
       Inr (if n > 3 then s @ '' (+'' @ str_int (int n - 3) @ '' more)'' else s))))))"

text \<open>Lines 168-192: the body of the loop over \<^verbatim>\<open>data\<close>, giving the five lines of one
  conversation.\<close>

definition summary_lines :: "(string \<Rightarrow> datetime option) \<Rightarrow> json \<Rightarrow> py_error + string list" where
  "summary_lines fromisoformat conv =
     ebind (dict_get conv ''attributes'' (JObj [])) (\<lambda>attrs.
     ebind (dict_get attrs ''uuid'' (JStr ''unknown'')) (\<lambda>uuid.
     ebind (dict_get conv ''id'' uuid) (\<lambda>conv_id.
     ebind (dict_get attrs ''title'' (JStr ''Untitled'')) (\<lambda>title.
     ebind (dict_get attrs ''createdAt'' (JStr [])) (\<lambda>created0.
     ebind (format_date fromisoformat created0) (\<lambda>created.
     ebind (dict_get attrs ''participants'' (JList [])) (\<lambda>participants.
     ebind (participant_str participants) (\<lambda>shown.
       Inr [''- **'' @ py_str title @ ''**'',
            ''  ID: '' @ py_str conv_id,
            ''  Date: '' @ py_str created,
            ''  Participants: '' @ shown,
            []]))))))))"

text \<open>\<^verbatim>\<open>x > n\<close> for an integer \<open>n\<close>: defined on integers and booleans only.\<close>

fun py_gt :: "json \<Rightarrow> int \<Rightarrow> py_error + bool" where
  "py_gt (JInt i) n = Inr (i > n)"
| "py_gt (JBool b) n = Inr ((if b then 1 else 0) > n)"
| "py_gt _ n = Inl TypeError"

fun is_dict :: "json \<Rightarrow> bool" where
  "is_dict (JObj kvs) = True"
| "is_dict _ = False"

text \<open>\<^verbatim>\<open>format_search_results\<close>, lines 157-198. In line 165 the method \<^verbatim>\<open>meta.get\<close> is
  looked up before its argument \<^verbatim>\<open>len(data)\<close> is evaluated.\<close>

definition format_search_results :: "(string \<Rightarrow> datetime option) \<Rightarrow> json \<Rightarrow> py_error + string" where
  "format_search_results fromisoformat result =
     ebind (dict_get result ''data'' (JList [])) (\<lambda>data.
     ebind (dict_get result ''meta'' (JObj [])) (\<lambda>meta.
       if \<not> truthy data then Inr ''No conversations found.''
       else if \<not> is_dict meta then Inl AttributeError
       else
         ebind (py_len data) (\<lambda>n.
         ebind (dict_get meta ''totalRecords'' (JInt (int n))) (\<lambda>total.
         ebind (py_iter data) (\<lambda>convs.
         ebind (each (summary_lines fromisoformat) convs) (\<lambda>blocks.
         ebind (dict_get meta ''pageCount'' (JInt 1)) (\<lambda>page_count.
         ebind (py_gt page_count 1) (\<lambda>more.
         ebind (dict_get meta ''pageNumber'' (JInt 1)) (\<lambda>page_number.
         ebind (dict_get meta ''pageCount'' JNull) (\<lambda>shown_count.
           Inr (join newline
             ([''Found '' @ py_str total @ '' conversations:'' @ newline]
              @ concat blocks
              @ (if more
                 then [newline @ ''Page '' @ py_str page_number @ '' of '' @ py_str shown_count]
                 else [])))))))))))))"


section \<open>The conversation detail formatter\<close>

text \<open>Lines 204-208: the attributes, at the top level or under \<^verbatim>\<open>data\<close>.\<close>

definition detail_attrs :: "json \<Rightarrow> py_error + json" where
  "detail_attrs result =
     ebind (dict_get result ''attributes'' (JObj [])) (\<lambda>attrs.
       if \<not> truthy attrs
       then ebind (dict_get result ''data'' (JObj [])) (\<lambda>data.
              dict_get data ''attributes'' (JObj []))
       else Inr attrs)"

text \<open>Line 210: \<^verbatim>\<open>attrs.get("uuid", result.get("id", "unknown"))\<close>.\<close>

definition detail_conv_id :: "json \<Rightarrow> json \<Rightarrow> py_error + json" where
  "detail_conv_id result attrs =
     (if \<not> is_dict attrs then Inl AttributeError
      else ebind (dict_get result ''id'' (JStr ''unknown'')) (\<lambda>top_id.
             dict_get attrs ''uuid'' top_id))"

text \<open>Lines 226-231: the line of one participant.\<close>

definition participant_line :: "json \<Rightarrow> py_error + string" where
  "participant_line p =
     ebind (display_name p) (\<lambda>name.
     ebind (dict_get p ''email'' (JStr [])) (\<lambda>email.
       Inr (if truthy email \<and> \<not> py_eq name email
            then ''  - '' @ py_str name @ '' ('' @ py_str email @ '')''
            else ''  - '' @ py_str name)))"

text \<open>Line 239: the confirmed mapping when it is truthy, else the raw one.\<close>

definition chosen_intelligence :: "json \<Rightarrow> py_error + json" where
  "chosen_intelligence attrs =
     ebind (dict_get attrs ''confirmedExtractedIntelligence'' (JObj [])) (\<lambda>confirmed.
       if truthy confirmed then Inr confirmed
       else dict_get attrs ''extractedIntelligence'' (JObj []))"

text \<open>Lines 243-251: the lines of one entry. \<^verbatim>\<open>intel_value\<close> is appended as it is,
  whatever its type.\<close>

definition intel_entry :: "string \<times> json \<Rightarrow> json list" where
  "intel_entry entry =
     (let key = fst entry; item = snd entry in
      case item of
        JObj kvs \<Rightarrow>
          (let intel_title = (case map_of kvs ''title'' of None \<Rightarrow> JStr key | Some v \<Rightarrow> v);
               intel_value = (case map_of kvs ''value'' of None \<Rightarrow> JStr [] | Some v \<Rightarrow> v)
           in if truthy intel_value
              then [JStr (''### '' @ py_str intel_title), intel_value, JStr []]
              else [])
      | _ \<Rightarrow> if truthy item then [JStr (''  - '' @ key @ '': '' @ py_str item)] else [])"

text \<open>Lines 240-251: only a dictionary has \<^verbatim>\<open>items\<close>.\<close>

definition intel_lines :: "json \<Rightarrow> py_error + json list" where
  "intel_lines intelligence =
     (if truthy intelligence then
        (case intelligence of
           JObj kvs \<Rightarrow> Inr (concat (map intel_entry kvs))
         | _ \<Rightarrow> Inl AttributeError)
      else Inr [])"

text \<open>Lines 265-268: the section is added when \<^verbatim>\<open>intel_lines\<close> is not empty.\<close>

definition intel_section :: "json list \<Rightarrow> json list" where
  "intel_section ls =
     (if ls \<noteq> [] then [JStr [], JStr ''## Extracted Intelligence''] @ ls else [])"

text \<open>\<^verbatim>\<open>format_conversation\<close>, lines 201-275. The final \<^verbatim>\<open>"\n".join(lines)\<close> raises
  \<^verbatim>\<open>TypeError\<close> when a line is not a string.\<close>

definition format_conversation :: "(string \<Rightarrow> datetime option) \<Rightarrow> json \<Rightarrow> py_error + string" where
  "format_conversation fromisoformat result =
     ebind (detail_attrs result) (\<lambda>attrs.
     ebind (detail_conv_id result attrs) (\<lambda>conv_id.
     ebind (dict_get attrs ''title'' (JStr ''Untitled'')) (\<lambda>title.
     ebind (dict_get attrs ''createdAt'' (JStr [])) (\<lambda>created0.
     ebind (format_date fromisoformat created0) (\<lambda>created.
     ebind (dict_get attrs ''participants'' (JList [])) (\<lambda>participants.
     ebind (py_iter participants) (\<lambda>ps.
     ebind (each participant_line ps) (\<lambda>participant_lines.
     ebind (dict_get attrs ''transcript'' (JObj [])) (\<lambda>transcript.
     ebind (format_transcript transcript) (\<lambda>transcript_text.
     ebind (chosen_intelligence attrs) (\<lambda>intelligence.
     ebind (intel_lines intelligence) (\<lambda>intel.
     ebind (dict_get attrs ''videoStatus'' (JStr ''Unknown'')) (\<lambda>video_status.
       py_join newline
         ([JStr (''# '' @ py_str title),
           JStr [],
           JStr (''**ID:** '' @ py_str conv_id),
           JStr (''**Date:** '' @ py_str created),
           JStr (''**Video Status:** '' @ py_str video_status),
           JStr [],
           JStr ''## Participants'']
          @ map JStr participant_lines
          @ intel_section intel
          @ [JStr [], JStr ''## Transcript'', JStr [], transcript_text]))))))))))))))"


section \<open>The API client\<close>






section \<open>Notions used to state the properties\<close>

text \<open>A segment that the loop skips: it is read without an exception and its trimmed
  text is empty.\<close>

definition empty_segment :: "json \<Rightarrow> bool" where
  "empty_segment segment = (case read_segment segment of Inl e \<Rightarrow> False | Inr r \<Rightarrow> snd r = [])"

text \<open>The turns as the specification describes them: a turn is a maximal run of consecutive
  segments whose speaker name equals that of the first segment of the run; it carries that
  name and the texts of the run.\<close>

function coalesce :: "(json \<times> string) list \<Rightarrow> (json \<times> string list) list" where
  "coalesce [] = []"
| "coalesce (r # rest) =
     (fst r, snd r # map snd (takeWhile (\<lambda>r'. py_eq (fst r') (fst r)) rest))
       # coalesce (dropWhile (\<lambda>r'. py_eq (fst r') (fst r)) rest)"
  by pat_completeness auto
termination
  by (relation "measure length") (auto simp: length_dropWhile_le less_Suc_eq_le)

text \<open>The lines of the turns that have a truthy speaker name, and the text made of them.\<close>

definition rendered :: "(json \<times> string list) list \<Rightarrow> string list" where
  "rendered ts = map (\<lambda>t. turn_line (fst t) (snd t)) (filter (\<lambda>t. truthy (fst t)) ts)"

definition render_turns :: "(json \<times> string list) list \<Rightarrow> string" where
  "render_turns ts =
     (let ls = rendered ts in if ls \<noteq> [] then join (newline @ newline) ls else placeholder)"

text \<open>A segment whose resolved speaker name is the empty string; two segments that are
  read alike, or are both such segments with some non-empty text; two loop states that
  agree on everything a later \<open>flush\<close> can show.\<close>

definition speaker_hidden :: "json \<Rightarrow> bool" where
  "speaker_hidden segment =
     (case read_segment segment of Inl e \<Rightarrow> False | Inr r \<Rightarrow> fst r = JStr [])"

definition hidden_alike_segment :: "json \<Rightarrow> json \<Rightarrow> bool" where
  "hidden_alike_segment a b \<longleftrightarrow>
     read_segment a = read_segment b
     \<or> (speaker_hidden a \<and> speaker_hidden b \<and> \<not> empty_segment a \<and> \<not> empty_segment b)"

definition hidden_alike :: "json \<times> string \<Rightarrow> json \<times> string \<Rightarrow> bool" where
  "hidden_alike r r' \<longleftrightarrow>
     r = r' \<or> (fst r = JStr [] \<and> fst r' = JStr [] \<and> snd r \<noteq> [] \<and> snd r' \<noteq> [])"

definition same_shown :: "turns \<Rightarrow> turns \<Rightarrow> bool" where
  "same_shown st st' \<longleftrightarrow>
     lines st = lines st' \<and> current_speaker st = current_speaker st'
     \<and> (truthy (current_speaker st) \<longrightarrow> current_text st = current_text st')"





text \<open>The two fallback chains for the displayed ID, over the entries of the attributes
  and of the enclosing object.\<close>

definition uuid_first :: "(string \<times> json) list \<Rightarrow> (string \<times> json) list \<Rightarrow> json" where
  "uuid_first attrs obj =
     (case map_of attrs ''uuid'' of
        Some u \<Rightarrow> u
      | None \<Rightarrow> (case map_of obj ''id'' of Some i \<Rightarrow> i | None \<Rightarrow> JStr ''unknown''))"

definition id_first :: "(string \<times> json) list \<Rightarrow> (string \<times> json) list \<Rightarrow> json" where
  "id_first attrs obj =
     (case map_of obj ''id'' of
        Some i \<Rightarrow> i
      | None \<Rightarrow> (case map_of attrs ''uuid'' of Some u \<Rightarrow> u | None \<Rightarrow> JStr ''unknown''))"



section \<open>Auxiliary facts\<close>

subsection \<open>Sequencing and the library operations\<close>

lemma ebind_Inr [simp]: "ebind (Inr x) f = f x"
  by (simp add: ebind_def)

lemma ebind_Inl [simp]: "ebind (Inl e) f = Inl e"
  by (simp add: ebind_def)

lemma ebind_eq_Inr: "ebind m f = Inr y \<longleftrightarrow> (\<exists>x. m = Inr x \<and> f x = Inr y)"
  by (cases m) simp_all

lemma each_append:
  "each f (xs @ ys) = ebind (each f xs) (\<lambda>as. ebind (each f ys) (\<lambda>bs. Inr (as @ bs)))"
proof (induction xs)
  case Nil
  show ?case by (cases "each f ys") simp_all
next
  case (Cons x xs)
  show ?case
    by (cases "f x"; cases "each f xs"; cases "each f ys") (simp_all add: Cons.IH)
qed

lemma each_list_all2:
  "list_all2 (\<lambda>x y. f x = Inr y) xs ys \<Longrightarrow> each f xs = Inr ys"
  by (induction xs ys rule: list_all2_induct) simp_all

lemma each_all_Inr:
  "\<forall>x \<in> set xs. \<exists>y. f x = Inr y \<and> P y \<Longrightarrow>
   \<exists>ys. each f xs = Inr ys \<and> (\<forall>y \<in> set ys. P y)"
proof (induction xs)
  case Nil
  show ?case by simp
next
  case (Cons x xs)
  then obtain ys where "each f xs = Inr ys" "\<forall>y \<in> set ys. P y" by auto
  moreover from Cons.prems obtain y where "f x = Inr y" "P y" by auto
  ultimately show ?case by simp
qed

lemma each_length: "each f xs = Inr ys \<Longrightarrow> length ys = length xs"
  by (induction xs arbitrary: ys) (auto simp: ebind_eq_Inr)

lemma each_as_str_JStr: "each as_str (map JStr xs) = Inr xs"
  by (induction xs) simp_all

lemma py_join_JStr: "py_join sep (map JStr xs) = Inr (join sep xs)"
  by (simp add: py_join_def each_as_str_JStr)

lemma py_join_prefix3:
  assumes "py_join sep (JStr a # JStr b # JStr c # x # xs) = Inr out"
  shows "\<exists>rest. out = a @ sep @ b @ sep @ c @ sep @ rest"
proof -
  from assms obtain ys where "each as_str (x # xs) = Inr ys" "out = join sep (a # b # c # ys)"
    by (auto simp: py_join_def ebind_eq_Inr)
  then show ?thesis by (cases ys) (auto simp: ebind_eq_Inr)
qed

lemma join_empty_sep: "join [] xs = concat xs"
  by (induction "[] :: string" xs rule: join.induct) simp_all

lemma py_eq_JNull: "py_eq x JNull \<longleftrightarrow> x = JNull"
  by (cases x) simp_all

lemma py_eq_empty_name: "py_eq (JStr []) x \<longleftrightarrow> x = JStr []"
  by (cases x) auto

subsection \<open>The segment loop\<close>

lemma segments_loop_each:
  "segments_loop st segs = ebind (each read_segment segs) (\<lambda>rs. Inr (foldl step st rs))"
proof (induction segs arbitrary: st)
  case Nil
  show ?case by simp
next
  case (Cons seg segs)
  show ?case
  proof (cases "read_segment seg")
    case (Inl e)
    then show ?thesis by simp
  next
    case (Inr r)
    show ?thesis
      by (cases "each read_segment segs") (simp_all add: Inr Cons.IH)
  qed
qed

lemma format_transcript_loop:
  "format_transcript (JList segs)
     = ebind (each read_segment segs) (\<lambda>rs.
         Inr (JStr (let ls = flush (foldl step no_turns rs)
                    in if ls \<noteq> [] then join (newline @ newline) ls else placeholder)))"
proof (cases segs)
  case Nil
  then show ?thesis
    by (simp add: format_transcript_def flush_def no_turns_def)
next
  case (Cons a list)
  then show ?thesis
    by (cases "each read_segment segs")
       (simp_all add: format_transcript_def segments_loop_each Let_def)
qed

lemma step_empty: "snd r = [] \<Longrightarrow> step st r = st"
  by (simp add: step_def)

lemma foldl_step_empty: "\<forall>r \<in> set rs. snd r = [] \<Longrightarrow> foldl step st rs = st"
  by (induction rs) (simp_all add: step_empty)

lemma foldl_step_filter:
  "foldl step st rs = foldl step st (filter (\<lambda>r. snd r \<noteq> []) rs)"
  by (induction rs arbitrary: st) (simp_all add: step_empty)

lemma flush_extend:
  "ts \<noteq> [] \<Longrightarrow>
   flush \<lparr>lines = ls, current_speaker = sp, current_text = ts\<rparr>
     = ls @ (if truthy sp then [turn_line sp ts] else [])"
  by (simp add: flush_def)

lemma flush_no_turns: "flush (no_turns\<lparr>current_text := ts\<rparr>) = []"
  by (simp add: flush_def no_turns_def)

text \<open>The loop invariant: what \<open>flush\<close> shows after the loop is what it would show once the
  segments that continue the current run are added, followed by the lines of the turns
  of the remaining segments.\<close>

lemma flush_foldl_step:
  "\<forall>r \<in> set rs. snd r \<noteq> [] \<Longrightarrow>
   flush (foldl step st rs)
     = flush (st\<lparr>current_text := current_text st
                 @ map snd (takeWhile (\<lambda>r. py_eq (fst r) (current_speaker st)) rs)\<rparr>)
       @ rendered (coalesce (dropWhile (\<lambda>r. py_eq (fst r) (current_speaker st)) rs))"
proof (induction rs arbitrary: st)
  case Nil
  show ?case by (simp add: rendered_def)
next
  case (Cons r rs)
  then have ne: "snd r \<noteq> []" and rest: "\<forall>r \<in> set rs. snd r \<noteq> []" by simp_all
  show ?case
  proof (cases "py_eq (fst r) (current_speaker st)")
    case True
    then have s: "step st r = st\<lparr>current_text := current_text st @ [snd r]\<rparr>"
      using ne by (simp add: step_def)
    show ?thesis
      using Cons.IH [OF rest, of "step st r"] True by (simp add: s)
  next
    case False
    then have s: "step st r = \<lparr>lines = flush st, current_speaker = fst r, current_text = [snd r]\<rparr>"
      using ne by (simp add: step_def)
    have "flush (st\<lparr>current_text := current_text st\<rparr>) = flush st" by simp
    then show ?thesis
      using Cons.IH [OF rest, of "step st r"] False
      by (simp add: s flush_extend rendered_def)
  qed
qed

lemma coalesce_drop_null:
  "rendered (coalesce (dropWhile (\<lambda>r. py_eq (fst r) JNull) rs)) = rendered (coalesce rs)"
proof (cases rs)
  case Nil
  then show ?thesis by simp
next
  case (Cons r rest)
  show ?thesis
  proof (cases "fst r = JNull")
    case True
    then show ?thesis by (simp add: Cons py_eq_JNull rendered_def)
  next
    case False
    then show ?thesis by (simp add: Cons py_eq_JNull)
  qed
qed

lemma flush_loop_no_turns:
  "flush (foldl step no_turns rs) = rendered (coalesce (filter (\<lambda>r. snd r \<noteq> []) rs))"
proof -
  let ?rs = "filter (\<lambda>r. snd r \<noteq> []) rs"
  have "flush (foldl step no_turns rs) = flush (foldl step no_turns ?rs)"
    using foldl_step_filter [of no_turns rs] by simp
  also have "\<dots> = rendered (coalesce (dropWhile (\<lambda>r. py_eq (fst r) JNull) ?rs))"
    using flush_foldl_step [of ?rs no_turns]
    by (simp add: flush_no_turns) (simp add: no_turns_def)
  finally show ?thesis by (simp add: coalesce_drop_null)
qed

lemma format_transcript_list:
  "format_transcript (JList segs)
     = ebind (each read_segment segs)
         (\<lambda>rs. Inr (JStr (render_turns (coalesce (filter (\<lambda>r. snd r \<noteq> []) rs)))))"
  by (cases "each read_segment segs")
     (simp_all add: format_transcript_loop flush_loop_no_turns render_turns_def)

lemma coalesce_speakers: "g \<in> set (coalesce rs) \<Longrightarrow> fst g \<in> fst ` set rs"
proof (induction rs arbitrary: g rule: coalesce.induct)
  case 1
  then show ?case by simp
next
  case (2 r rest)
  from "2.prems" consider "g = (fst r, snd r # map snd (takeWhile (\<lambda>r'. py_eq (fst r') (fst r)) rest))"
    | "g \<in> set (coalesce (dropWhile (\<lambda>r'. py_eq (fst r') (fst r)) rest))" by auto
  then show ?case
  proof cases
    case 1
    then show ?thesis by simp
  next
    case 2
    then have "fst g \<in> fst ` set (dropWhile (\<lambda>r'. py_eq (fst r') (fst r)) rest)"
      by (rule "2.IH")
    then show ?thesis using set_dropWhileD by fastforce
  qed
qed

subsection \<open>Skipped segments\<close>

lemma each_filter_empty:
  "each read_segment (filter (\<lambda>s. \<not> empty_segment s) segs)
     = ebind (each read_segment segs) (\<lambda>rs. Inr (filter (\<lambda>r. snd r \<noteq> []) rs))"
proof (induction segs)
  case Nil
  show ?case by simp
next
  case (Cons seg segs)
  show ?case
  proof (cases "read_segment seg")
    case (Inl e)
    then show ?thesis by (simp add: empty_segment_def)
  next
    case (Inr r)
    then have e: "empty_segment seg \<longleftrightarrow> snd r = []"
      by (simp add: empty_segment_def)
    show ?thesis
      by (cases "each read_segment segs") (simp_all add: e Inr Cons.IH)
  qed
qed

lemma format_transcript_filter:
  "format_transcript (JList segs)
     = format_transcript (JList (filter (\<lambda>s. \<not> empty_segment s) segs))"
  by (cases "each read_segment segs")
     (simp_all add: format_transcript_list each_filter_empty)

lemma each_empty_segments:
  "list_all empty_segment gap \<Longrightarrow>
   \<exists>rs. each read_segment gap = Inr rs \<and> (\<forall>r \<in> set rs. snd r = [])"
proof (induction gap)
  case Nil
  show ?case by simp
next
  case (Cons g gap)
  then obtain rs where rs: "each read_segment gap = Inr rs" "\<forall>r \<in> set rs. snd r = []"
    by auto
  from Cons.prems obtain r where r: "read_segment g = Inr r" "snd r = []"
    by (auto simp: empty_segment_def split: sum.splits)
  show ?case by (simp add: rs r)
qed

lemma coalesced_run:
  assumes s1: "read_segment s1 = Inr (sp, t1)" and t1: "t1 \<noteq> []"
    and s2: "read_segment s2 = Inr (sp', t2)" and t2: "t2 \<noteq> []"
    and same: "py_eq sp' sp" and gap: "list_all empty_segment gap"
  shows "segments_loop no_turns (s1 # gap @ [s2])
           = Inr \<lparr>lines = [], current_speaker = sp, current_text = [t1, t2]\<rparr>"
proof -
  obtain rs where rs: "each read_segment gap = Inr rs" "\<forall>r \<in> set rs. snd r = []"
    using each_empty_segments [OF gap] by blast
  have first: "step no_turns (sp, t1) = \<lparr>lines = [], current_speaker = sp, current_text = [t1]\<rparr>"
    using t1 by (cases sp) (simp_all add: step_def no_turns_def flush_def)
  have "segments_loop no_turns (s1 # gap @ [s2])
          = Inr (step (foldl step (step no_turns (sp, t1)) rs) (sp', t2))"
    by (simp add: segments_loop_each each_append s1 s2 rs)
  also have "\<dots> = Inr (step \<lparr>lines = [], current_speaker = sp, current_text = [t1]\<rparr> (sp', t2))"
    by (simp add: foldl_step_empty rs first)
  also have "\<dots> = Inr \<lparr>lines = [], current_speaker = sp, current_text = [t1, t2]\<rparr>"
    using t2 same by (simp add: step_def)
  finally show ?thesis .
qed

lemma coalesced_run_text:
  assumes s1: "read_segment s1 = Inr (sp, t1)" and t1: "t1 \<noteq> []"
    and s2: "read_segment s2 = Inr (sp', t2)" and t2: "t2 \<noteq> []"
    and same: "py_eq sp' sp" and gap: "list_all empty_segment gap"
  shows "format_transcript (JList (s1 # gap @ [s2]))
           = Inr (JStr (if truthy sp then turn_line sp [t1, t2] else placeholder))"
  using coalesced_run [OF assms]
  by (simp add: format_transcript_def flush_def)

subsection \<open>Segments without a speaker name\<close>

lemma same_shown_flush: "same_shown st st' \<Longrightarrow> flush st = flush st'"
  by (auto simp: same_shown_def flush_def)

lemma same_shown_step:
  assumes "same_shown st st'" and "hidden_alike r r'"
  shows "same_shown (step st r) (step st' r')"
proof (cases "r = r'")
  case True
  have f: "flush st = flush st'" using assms(1) by (rule same_shown_flush)
  show ?thesis
    using assms(1) True f by (auto simp: same_shown_def step_def Let_def)
next
  case False
  then have h: "fst r = JStr []" "fst r' = JStr []" "snd r \<noteq> []" "snd r' \<noteq> []"
    using assms(2) by (auto simp: hidden_alike_def)
  have f: "flush st = flush st'" using assms(1) by (rule same_shown_flush)
  show ?thesis
    using assms(1) h f by (auto simp: same_shown_def step_def Let_def py_eq_empty_name)
qed

lemma same_shown_foldl:
  "list_all2 hidden_alike rs rs' \<Longrightarrow> same_shown st st' \<Longrightarrow>
   same_shown (foldl step st rs) (foldl step st' rs')"
proof (induction rs rs' arbitrary: st st' rule: list_all2_induct)
  case Nil
  then show ?case by simp
next
  case (Cons r rs r' rs')
  show ?case
    using Cons.IH [OF same_shown_step [OF Cons.prems Cons.hyps(1)]] by simp
qed

lemma each_hidden_alike:
  "list_all2 hidden_alike_segment segs segs' \<Longrightarrow>
   (\<exists>e. each read_segment segs = Inl e \<and> each read_segment segs' = Inl e)
   \<or> (\<exists>rs rs'. each read_segment segs = Inr rs \<and> each read_segment segs' = Inr rs'
         \<and> list_all2 hidden_alike rs rs')"
proof (induction segs segs' rule: list_all2_induct)
  case Nil
  show ?case by simp
next
  case (Cons a segs b segs')
  show ?case
  proof (cases "read_segment a")
    case (Inl e)
    then have "read_segment b = Inl e"
      using Cons.hyps(1)
      by (auto simp: hidden_alike_segment_def speaker_hidden_def split: sum.splits)
    then show ?thesis by (simp add: Inl)
  next
    case (Inr r)
    then obtain r' where r': "read_segment b = Inr r'" "hidden_alike r r'"
      using Cons.hyps(1)
      by (auto simp: hidden_alike_segment_def hidden_alike_def speaker_hidden_def
            empty_segment_def split: sum.splits)
    from Cons.IH show ?thesis
    proof
      assume "\<exists>e. each read_segment segs = Inl e \<and> each read_segment segs' = Inl e"
      then show ?thesis by (auto simp: Inr r')
    next
      assume "\<exists>rs rs'. each read_segment segs = Inr rs \<and> each read_segment segs' = Inr rs'
         \<and> list_all2 hidden_alike rs rs'"
      then show ?thesis by (auto simp: Inr r')
    qed
  qed
qed

lemma hidden_text_ignored:
  assumes "list_all2 hidden_alike_segment segs segs'"
  shows "format_transcript (JList segs) = format_transcript (JList segs')"
proof -
  from each_hidden_alike [OF assms] show ?thesis
  proof
    assume "\<exists>e. each read_segment segs = Inl e \<and> each read_segment segs' = Inl e"
    then show ?thesis by (auto simp: format_transcript_loop)
  next
    assume "\<exists>rs rs'. each read_segment segs = Inr rs \<and> each read_segment segs' = Inr rs'
         \<and> list_all2 hidden_alike rs rs'"
    then obtain rs rs' where rs: "each read_segment segs = Inr rs"
      "each read_segment segs' = Inr rs'" "list_all2 hidden_alike rs rs'" by blast
    have "same_shown no_turns no_turns" by (simp add: same_shown_def)
    then have "flush (foldl step no_turns rs) = flush (foldl step no_turns rs')"
      using same_shown_foldl [OF rs(3)] same_shown_flush by blast
    then show ?thesis by (simp add: format_transcript_loop rs)
  qed
qed

lemma all_hidden_placeholder:
  assumes "\<forall>seg \<in> set segs. \<exists>r. read_segment seg = Inr r \<and> \<not> truthy (fst r)"
  shows "format_transcript (JList segs) = Inr (JStr placeholder)"
proof -
  obtain rs where rs: "each read_segment segs = Inr rs" "\<forall>r \<in> set rs. \<not> truthy (fst r)"
    using each_all_Inr [OF assms] by blast
  have "filter (\<lambda>t. truthy (fst t)) (coalesce (filter (\<lambda>r. snd r \<noteq> []) rs)) = []"
    using rs(2) coalesce_speakers [of _ "filter (\<lambda>r. snd r \<noteq> []) rs"]
    by (fastforce simp: filter_empty_conv)
  then show ?thesis by (simp add: format_transcript_list rs render_turns_def rendered_def)
qed

subsection \<open>Dates\<close>






subsection \<open>The two conversation formatters\<close>



lemma participant_str_list:
  assumes "list_all2 (\<lambda>p n. display_name p = Inr (JStr n)) (take 3 ps) names"
  shows "participant_str (JList ps)
     = Inr (join '', '' names
            @ (if 3 < length ps then '' (+'' @ str_int (int (length ps) - 3) @ '' more)'' else []))"
proof -
  have "list_all2 (\<lambda>p y. display_name p = Inr y) (take 3 ps) (map JStr names)"
    using assms by (simp add: list_all2_map2)
  then have "each display_name (take 3 ps) = Inr (map JStr names)"
    by (rule each_list_all2)
  then show ?thesis
    by (simp add: participant_str_def py_join_JStr)
qed

lemma summary_participants_line:
  assumes "dict_get conv ''attributes'' (JObj []) = Inr attrs"
    and "dict_get attrs ''participants'' (JList []) = Inr participants"
    and "participant_str participants = Inr shown"
    and "summary_lines f conv = Inr ls"
  shows "ls ! 3 = ''  Participants: '' @ shown"
  using assms(4) unfolding summary_lines_def
  by (auto simp: ebind_eq_Inr assms(1,2,3))

lemma detail_conv_id_chain:
  "detail_conv_id (JObj res) (JObj attrs) = Inr (uuid_first attrs res)"
  by (simp add: detail_conv_id_def uuid_first_def split: option.splits)

lemma format_conversation_id_line:
  assumes "detail_attrs (JObj res) = Inr (JObj attrs)"
    and "format_conversation f (JObj res) = Inr out"
  shows "\<exists>title rest. out = ''# '' @ title @ newline @ newline
            @ ''**ID:** '' @ py_str (uuid_first attrs res) @ newline @ rest"
proof -
  from assms(2) obtain title x xs where
    "py_join newline (JStr (''# '' @ title) # JStr [] # JStr (''**ID:** '' @ py_str (uuid_first attrs res)) # x # xs) = Inr out"
    by (auto simp: format_conversation_def assms(1) detail_conv_id_chain ebind_eq_Inr)
  from py_join_prefix3 [OF this] show ?thesis by auto
qed

lemma summary_id_line:
  assumes "dict_get (JObj conv) ''attributes'' (JObj []) = Inr (JObj attrs)"
    and "summary_lines f (JObj conv) = Inr ls"
  shows "ls ! 1 = ''  ID: '' @ py_str (id_first attrs conv)"
  using assms(2) unfolding summary_lines_def assms(1)
  by (auto simp: ebind_eq_Inr id_first_def split: option.splits)



lemma segment_text_words:
  assumes "map_of segment ''words'' = Some (JList ws)"
    and "list_all2 (\<lambda>w t. dict_get w ''text'' (JStr []) = Inr (JStr t)) ws ts"
  shows "segment_text (JObj segment) = Inr (strip (concat ts))"
proof -
  have "list_all2 (\<lambda>w y. dict_get w ''text'' (JStr []) = Inr y) ws (map JStr ts)"
    using assms(2) by (simp add: list_all2_map2)
  then have "each (\<lambda>w. dict_get w ''text'' (JStr [])) ws = Inr (map JStr ts)"
    by (rule each_list_all2)
  then show ?thesis
    by (simp add: segment_text_def assms(1) py_join_JStr join_empty_sep)
qed


subsection \<open>Exceptions do not depend on the date parser\<close>







lemma py_join_error:
  "py_join sep (JStr a # xs) = Inl e \<longleftrightarrow> py_join sep (JStr b # xs) = Inl e"
  by (cases "each as_str xs") (simp_all add: py_join_def)




section \<open>The displayed ID\<close>

text \<open>
  C1, as amended. For a conversation object rendered by the detail formatter, the displayed
  ID is \<^verbatim>\<open>attributes.uuid\<close> when present, else the top-level \<^verbatim>\<open>id\<close>, else the literal
  \<^verbatim>\<open>unknown\<close>: the ID line of the output, the third line, shows \<open>uuid_first\<close>. The list
  formatter shows \<open>id_first\<close> for each summary: the top-level \<^verbatim>\<open>id\<close> when present, else
  \<^verbatim>\<open>attributes.uuid\<close>, else \<^verbatim>\<open>unknown\<close>. The two chains give the same ID whenever
  \<^verbatim>\<open>attributes.uuid\<close> or the top-level \<^verbatim>\<open>id\<close> is missing.
\<close>

theorem detail_id_fallback_chain:
  assumes "detail_attrs (JObj res) = Inr (JObj attrs)"
  shows "detail_conv_id (JObj res) (JObj attrs) = Inr (uuid_first attrs res)
    \<and> (\<forall>out. format_conversation f (JObj res) = Inr out \<longrightarrow>
         (\<exists>title rest. out = ''# '' @ title @ newline @ newline
             @ ''**ID:** '' @ py_str (uuid_first attrs res) @ newline @ rest))
    \<and> (\<forall>conv ls. dict_get (JObj conv) ''attributes'' (JObj []) = Inr (JObj attrs)
           \<and> summary_lines f (JObj conv) = Inr ls \<longrightarrow>
         ls ! 1 = ''  ID: '' @ py_str (id_first attrs conv))
    \<and> (map_of attrs ''uuid'' = None \<or> map_of res ''id'' = None \<longrightarrow>
         uuid_first attrs res = id_first attrs res)"
proof -
  have "uuid_first attrs res = id_first attrs res"
    if "map_of attrs ''uuid'' = None \<or> map_of res ''id'' = None"
    using that by (auto simp: uuid_first_def id_first_def split: option.splits)
  then show ?thesis
    using format_conversation_id_line [OF assms] summary_id_line detail_conv_id_chain
    by blast
qed

theorem detail_id_fallback_chain_witness:
  "detail_attrs (JObj [(''id'', JStr ''top''), (''attributes'', JObj [(''uuid'', JStr ''inner'')])])
     = Inr (JObj [(''uuid'', JStr ''inner'')])
   \<and> detail_conv_id (JObj [(''id'', JStr ''top''), (''attributes'', JObj [(''uuid'', JStr ''inner'')])])
        (JObj [(''uuid'', JStr ''inner'')]) = Inr (JStr ''inner'')"
proof -
  have a: "detail_attrs (JObj [(''id'', JStr ''top''), (''attributes'', JObj [(''uuid'', JStr ''inner'')])])
     = Inr (JObj [(''uuid'', JStr ''inner'')])"
    by (simp add: detail_attrs_def)
  have b: "uuid_first [(''uuid'', JStr ''inner'')]
      [(''id'', JStr ''top''), (''attributes'', JObj [(''uuid'', JStr ''inner'')])] = JStr ''inner''"
    by (simp add: uuid_first_def)
  from detail_id_fallback_chain [OF a] b a show ?thesis by simp
qed

text \<open>C1 as stated fails where both IDs are present: the detail formatter shows
  \<^verbatim>\<open>attributes.uuid\<close>, not the top-level \<^verbatim>\<open>id\<close> that the list formatter shows for the same
  object.\<close>

theorem detail_id_counterexample:
  "format_conversation (\<lambda>s. None)
       (JObj [(''id'', JStr ''top''), (''attributes'', JObj [(''uuid'', JStr ''inner'')])])
     = Inr ''# Untitled\<newline>\<newline>**ID:** inner\<newline>**Date:** \<newline>**Video Status:** Unknown\<newline>\<newline>## Participants\<newline>\<newline>## Transcript\<newline>\<newline>*No transcript available*''
   \<and> summary_lines (\<lambda>s. None)
       (JObj [(''id'', JStr ''top''), (''attributes'', JObj [(''uuid'', JStr ''inner'')])])
     = Inr [''- **Untitled**'', ''  ID: top'', ''  Date: '', ''  Participants: '', '''']"
  by code_simp


section \<open>The transcript formatter\<close>

text \<open>
  C2, as amended. A non-empty string is returned unchanged; the empty string is falsy and
  gives the placeholder, so the formatter is not the identity on every string. Formatting
  a string twice gives the same as formatting it once, for every string.
\<close>

theorem format_transcript_string:
  "format_transcript (JStr s) = Inr (JStr (if s = [] then placeholder else s))
   \<and> ebind (format_transcript (JStr s)) format_transcript = format_transcript (JStr s)"
  by (simp add: format_transcript_def placeholder_def)

text \<open>C2 as stated fails at the empty string: the result is the placeholder.\<close>

theorem format_transcript_empty_string_counterexample:
  "format_transcript (JStr '''') = Inr (JStr ''*No transcript available*'')
   \<and> format_transcript (JStr '''') \<noteq> Inr (JStr '''')"
  by (simp add: format_transcript_def placeholder_def)

text \<open>
  C3. A segment whose concatenated and trimmed word text is empty is skipped entirely:
  removing all such segments from the list changes nothing in the result. It does not
  reset the grouping: when two segments with non-empty text and the same resolved speaker
  are separated only by such segments, the loop ends with a single accumulated turn
  holding both texts, which is shown as one line when the speaker name is truthy.
\<close>

theorem empty_segments_skipped:
  "format_transcript (JList segs)
     = format_transcript (JList (filter (\<lambda>s. \<not> empty_segment s) segs))
   \<and> (read_segment s1 = Inr (sp, t1) \<and> t1 \<noteq> [] \<and> read_segment s2 = Inr (sp', t2) \<and> t2 \<noteq> []
        \<and> py_eq sp' sp \<and> list_all empty_segment gap \<longrightarrow>
      segments_loop no_turns (s1 # gap @ [s2])
        = Inr \<lparr>lines = [], current_speaker = sp, current_text = [t1, t2]\<rparr>
      \<and> format_transcript (JList (s1 # gap @ [s2]))
        = Inr (JStr (if truthy sp then turn_line sp [t1, t2] else placeholder)))"
  using format_transcript_filter [of segs] coalesced_run coalesced_run_text
  by blast

theorem empty_segments_skipped_witness:
  "read_segment (JObj [(''speaker'', JObj [(''name'', JStr ''A'')]),
                       (''words'', JList [JObj [(''text'', JStr ''Hi'')]])])
     = Inr (JStr ''A'', ''Hi'')
   \<and> read_segment (JObj [(''speaker'', JObj [(''name'', JStr ''A'')]),
                         (''words'', JList [JObj [(''text'', JStr ''there'')]])])
     = Inr (JStr ''A'', ''there'')
   \<and> list_all empty_segment
       [JObj [(''speaker'', JObj [(''name'', JStr ''A'')]),
              (''words'', JList [JObj [(''text'', JStr '' '')]])],
        JObj [(''speaker'', JObj [(''name'', JStr ''B'')]), (''words'', JList [])]]
   \<and> format_transcript (JList
       [JObj [(''speaker'', JObj [(''name'', JStr ''A'')]),
              (''words'', JList [JObj [(''text'', JStr ''Hi'')]])],
        JObj [(''speaker'', JObj [(''name'', JStr ''A'')]),
              (''words'', JList [JObj [(''text'', JStr '' '')]])],
        JObj [(''speaker'', JObj [(''name'', JStr ''B'')]), (''words'', JList [])],
        JObj [(''speaker'', JObj [(''name'', JStr ''A'')]),
              (''words'', JList [JObj [(''text'', JStr ''there'')]])]])
     = Inr (JStr ''**A:** Hi there'')"
proof -
  let ?s1 = "JObj [(''speaker'', JObj [(''name'', JStr ''A'')]),
                   (''words'', JList [JObj [(''text'', JStr ''Hi'')]])]"
  let ?s2 = "JObj [(''speaker'', JObj [(''name'', JStr ''A'')]),
                   (''words'', JList [JObj [(''text'', JStr ''there'')]])]"
  let ?gap = "[JObj [(''speaker'', JObj [(''name'', JStr ''A'')]),
                     (''words'', JList [JObj [(''text'', JStr '' '')]])],
               JObj [(''speaker'', JObj [(''name'', JStr ''B'')]), (''words'', JList [])]]"
  have a: "read_segment ?s1 = Inr (JStr ''A'', ''Hi'')" by code_simp
  have b: "read_segment ?s2 = Inr (JStr ''A'', ''there'')" by code_simp
  have c: "list_all empty_segment ?gap" by code_simp
  have d: "''Hi'' \<noteq> []" "''there'' \<noteq> []" "py_eq (JStr ''A'') (JStr ''A'')" "truthy (JStr ''A'')"
    by simp_all
  have e: "turn_line (JStr ''A'') [''Hi'', ''there''] = ''**A:** Hi there''"
    by (simp add: turn_line_def)
  from empty_segments_skipped [of _ ?s1 "JStr ''A''" "''Hi''" ?s2 "JStr ''A''" "''there''" ?gap]
  have "format_transcript (JList (?s1 # ?gap @ [?s2])) = Inr (JStr ''**A:** Hi there'')"
    using a b c d e by presburger
  then show ?thesis using a b c by simp
qed

text \<open>
  C4, as amended. For a transcript given as a list of segments, the text of a segment is
  the concatenation of the text fields of its words, trimmed. The segments with non-empty
  text are grouped into turns of consecutive segments with the same resolved speaker name
  (\<open>coalesce\<close>); each turn whose speaker name is truthy is rendered as
  \<^verbatim>\<open>**{speaker}:** {texts joined by a single space}\<close>, a turn whose speaker name is empty
  or otherwise falsy is not rendered; the rendered turns are separated by a blank line,
  and the placeholder is returned when there is none. An exception raised while a
  segment is read is the result.
\<close>

theorem transcript_turns:
  "format_transcript (JList segs)
     = ebind (each read_segment segs)
         (\<lambda>rs. Inr (JStr (render_turns (coalesce (filter (\<lambda>r. snd r \<noteq> []) rs)))))
   \<and> (map_of segment ''words'' = Some (JList ws)
        \<and> list_all2 (\<lambda>w t. dict_get w ''text'' (JStr []) = Inr (JStr t)) ws ts \<longrightarrow>
      segment_text (JObj segment) = Inr (strip (concat ts)))
   \<and> turn_line (JStr speaker) texts = ''**'' @ speaker @ '':** '' @ join '' '' texts
   \<and> rendered turns = map (\<lambda>t. turn_line (fst t) (snd t)) (filter (\<lambda>t. truthy (fst t)) turns)
   \<and> render_turns turns
       = (if rendered turns = [] then placeholder
          else join ''\<newline>\<newline>'' (rendered turns))"
  using format_transcript_list [of segs] segment_text_words [of segment ws ts]
  by (simp add: turn_line_def rendered_def render_turns_def newline_def)

theorem transcript_turns_witness:
  "format_transcript (JList
     [JObj [(''speaker'', JObj [(''name'', JStr ''A'')]),
            (''words'', JList [JObj [(''text'', JStr ''Hi'')]])],
      JObj [(''speaker'', JObj [(''name'', JStr ''A'')]),
            (''words'', JList [JObj [(''text'', JStr ''there'')]])],
      JObj [(''speaker'', JObj [(''name'', JStr ''B'')]),
            (''words'', JList [JObj [(''text'', JStr ''Hello'')]])]])
     = Inr (JStr ''**A:** Hi there\<newline>\<newline>**B:** Hello'')
   \<and> segment_text (JObj [(''words'', JList [JObj [(''text'', JStr '' Good'')],
                                            JObj [(''text'', JStr '' day '')]])])
     = Inr ''Good day''"
proof -
  let ?segs = "[JObj [(''speaker'', JObj [(''name'', JStr ''A'')]),
                      (''words'', JList [JObj [(''text'', JStr ''Hi'')]])],
                JObj [(''speaker'', JObj [(''name'', JStr ''A'')]),
                      (''words'', JList [JObj [(''text'', JStr ''there'')]])],
                JObj [(''speaker'', JObj [(''name'', JStr ''B'')]),
                      (''words'', JList [JObj [(''text'', JStr ''Hello'')]])]]"
  let ?ws = "[JObj [(''text'', JStr '' Good'')], JObj [(''text'', JStr '' day '')]]"
  note T = transcript_turns [of ?segs "[(''words'', JList ?ws)]" ?ws "['' Good'', '' day '']"]
  have a: "ebind (each read_segment ?segs)
         (\<lambda>rs. Inr (JStr (render_turns (coalesce (filter (\<lambda>r. snd r \<noteq> []) rs)))))
     = Inr (JStr ''**A:** Hi there\<newline>\<newline>**B:** Hello'')"
    by code_simp
  have b: "map_of [(''words'', JList ?ws)] ''words'' = Some (JList ?ws)" by simp
  have c: "list_all2 (\<lambda>w t. dict_get w ''text'' (JStr []) = Inr (JStr t)) ?ws ['' Good'', '' day '']"
    by simp
  have d: "strip (concat ['' Good'', '' day '']) = ''Good day''" by code_simp
  have "format_transcript (JList ?segs) = Inr (JStr ''**A:** Hi there\<newline>\<newline>**B:** Hello'')"
    using T a by presburger
  moreover have "segment_text (JObj [(''words'', JList ?ws)]) = Inr ''Good day''"
    using T b c d by presburger
  ultimately show ?thesis by simp
qed

text \<open>C4 as stated fails for a turn whose speaker name is the empty string: the claim
  has it rendered as \<^verbatim>\<open>**:** Hi\<close>, the formatter drops it and returns the placeholder.\<close>

theorem transcript_turns_counterexample:
  "read_segment (JObj [(''speaker'', JObj [(''email'', JStr '''')]),
                       (''words'', JList [JObj [(''text'', JStr ''Hi'')]])])
     = Inr (JStr '''', ''Hi'')
   \<and> format_transcript (JList
       [JObj [(''speaker'', JObj [(''email'', JStr '''')]),
              (''words'', JList [JObj [(''text'', JStr ''Hi'')]])]])
     = Inr (JStr ''*No transcript available*'')
   \<and> turn_line (JStr '''') [''Hi''] = ''**:** Hi''"
  by code_simp

text \<open>
  C10. A segment whose resolved speaker name is the empty string (a speaker block whose
  \<^verbatim>\<open>email\<close> is present and empty, with no truthy \<^verbatim>\<open>name\<close>) has its non-empty text left
  out of the output: replacing that text by any other non-empty text never changes the
  result. A turn is emitted only when the accumulated speaker name is truthy, and when
  every segment resolves to the empty speaker name the placeholder is returned.
\<close>

theorem empty_speaker_text_omitted:
  "(list_all2 hidden_alike_segment segs segs' \<longrightarrow>
      format_transcript (JList segs) = format_transcript (JList segs'))
   \<and> (\<not> truthy (current_speaker st) \<longrightarrow> flush st = lines st)
   \<and> (list_all speaker_hidden segs \<longrightarrow> format_transcript (JList segs) = Inr (JStr placeholder))
   \<and> (map_of speaker ''email'' = Some (JStr [])
        \<and> \<not> truthy (case map_of speaker ''name'' of None \<Rightarrow> JNull | Some n \<Rightarrow> n) \<longrightarrow>
      display_name (JObj speaker) = Inr (JStr []))"
proof -
  have "format_transcript (JList segs) = Inr (JStr placeholder)" if "list_all speaker_hidden segs"
  proof (rule all_hidden_placeholder)
    show "\<forall>seg \<in> set segs. \<exists>r. read_segment seg = Inr r \<and> \<not> truthy (fst r)"
    proof
      fix seg
      assume "seg \<in> set segs"
      then have "speaker_hidden seg" using that by (simp add: list_all_iff)
      then show "\<exists>r. read_segment seg = Inr r \<and> \<not> truthy (fst r)"
        by (cases "read_segment seg") (simp_all add: speaker_hidden_def)
    qed
  qed
  moreover have "flush st = lines st" if "\<not> truthy (current_speaker st)"
    using that by (simp add: flush_def)
  moreover have "display_name (JObj speaker) = Inr (JStr [])"
    if "map_of speaker ''email'' = Some (JStr [])
        \<and> \<not> truthy (case map_of speaker ''name'' of None \<Rightarrow> JNull | Some n \<Rightarrow> n)"
    using that by (simp add: display_name_def)
  ultimately show ?thesis
    using hidden_text_ignored [of segs segs'] by blast
qed

theorem empty_speaker_text_omitted_witness:
  "list_all2 hidden_alike_segment
     [JObj [(''speaker'', JObj [(''name'', JStr ''A'')]),
            (''words'', JList [JObj [(''text'', JStr ''Hi'')]])],
      JObj [(''speaker'', JObj [(''email'', JStr '''')]),
            (''words'', JList [JObj [(''text'', JStr ''secret'')]])]]
     [JObj [(''speaker'', JObj [(''name'', JStr ''A'')]),
            (''words'', JList [JObj [(''text'', JStr ''Hi'')]])],
      JObj [(''speaker'', JObj [(''email'', JStr '''')]),
            (''words'', JList [JObj [(''text'', JStr ''other'')]])]]
   \<and> format_transcript (JList
       [JObj [(''speaker'', JObj [(''name'', JStr ''A'')]),
              (''words'', JList [JObj [(''text'', JStr ''Hi'')]])],
        JObj [(''speaker'', JObj [(''email'', JStr '''')]),
              (''words'', JList [JObj [(''text'', JStr ''secret'')]])]])
     = format_transcript (JList
       [JObj [(''speaker'', JObj [(''name'', JStr ''A'')]),
              (''words'', JList [JObj [(''text'', JStr ''Hi'')]])],
        JObj [(''speaker'', JObj [(''email'', JStr '''')]),
              (''words'', JList [JObj [(''text'', JStr ''other'')]])]])
   \<and> list_all speaker_hidden
       [JObj [(''speaker'', JObj [(''email'', JStr '''')]),
              (''words'', JList [JObj [(''text'', JStr ''secret'')]])]]
   \<and> format_transcript (JList
       [JObj [(''speaker'', JObj [(''email'', JStr '''')]),
              (''words'', JList [JObj [(''text'', JStr ''secret'')]])]])
     = Inr (JStr ''*No transcript available*'')"
proof -
  let ?a = "JObj [(''speaker'', JObj [(''name'', JStr ''A'')]),
                  (''words'', JList [JObj [(''text'', JStr ''Hi'')]])]"
  let ?h = "JObj [(''speaker'', JObj [(''email'', JStr '''')]),
                  (''words'', JList [JObj [(''text'', JStr ''secret'')]])]"
  let ?h' = "JObj [(''speaker'', JObj [(''email'', JStr '''')]),
                   (''words'', JList [JObj [(''text'', JStr ''other'')]])]"
  have a: "list_all2 hidden_alike_segment [?a, ?h] [?a, ?h']" by code_simp
  have b: "list_all speaker_hidden [?h]" by code_simp
  have "format_transcript (JList [?a, ?h]) = format_transcript (JList [?a, ?h'])"
    using empty_speaker_text_omitted [of "[?a, ?h]" "[?a, ?h']"] a by presburger
  moreover have "format_transcript (JList [?h]) = Inr (JStr placeholder)"
    using empty_speaker_text_omitted [of "[?h]"] b by presburger
  ultimately show ?thesis using a b by (simp add: placeholder_def)
qed


section \<open>The conversation list formatter\<close>

text \<open>
  C5. For a summary whose participants are a list of blocks with string display names,
  the participants text is the display names of the first three participants, in input
  order and separated by commas, followed by \<^verbatim>\<open> (+{n-3} more)\<close> when the list has
  \<open>n > 3\<close> participants, and by nothing when it has three or fewer. It is what the
  participants line, the fourth line of the summary, shows.
\<close>

theorem participants_truncated:
  assumes "list_all2 (\<lambda>p n. display_name p = Inr (JStr n)) (take 3 ps) names"
  shows "participant_str (JList ps)
       = Inr (join '', '' names
              @ (if 3 < length ps then '' (+'' @ str_int (int (length ps) - 3) @ '' more)'' else []))
    \<and> length names = min 3 (length ps)
    \<and> (\<forall>conv attrs ls.
          dict_get conv ''attributes'' (JObj []) = Inr attrs
          \<and> dict_get attrs ''participants'' (JList []) = Inr (JList ps)
          \<and> summary_lines f conv = Inr ls \<longrightarrow>
          ls ! 3 = ''  Participants: '' @ join '', '' names
              @ (if 3 < length ps then '' (+'' @ str_int (int (length ps) - 3) @ '' more)'' else []))"
proof -
  have len: "length names = min 3 (length ps)"
    using list_all2_lengthD [OF assms] by simp
  show ?thesis
    using participant_str_list [OF assms] len summary_participants_line
    by blast
qed

theorem participants_truncated_witness:
  "list_all2 (\<lambda>p n. display_name p = Inr (JStr n))
     (take 3 [JObj [(''name'', JStr ''Ann'')], JObj [(''email'', JStr ''bo@x.io'')], JObj [],
              JObj [(''name'', JStr ''Dee'')], JObj [(''name'', JStr ''Eli'')]])
     [''Ann'', ''bo@x.io'', ''Unknown'']
   \<and> participant_str (JList
       [JObj [(''name'', JStr ''Ann'')], JObj [(''email'', JStr ''bo@x.io'')], JObj [],
        JObj [(''name'', JStr ''Dee'')], JObj [(''name'', JStr ''Eli'')]])
     = Inr ''Ann, bo@x.io, Unknown (+2 more)''"
proof -
  let ?ps = "[JObj [(''name'', JStr ''Ann'')], JObj [(''email'', JStr ''bo@x.io'')], JObj [],
              JObj [(''name'', JStr ''Dee'')], JObj [(''name'', JStr ''Eli'')]]"
  have a: "list_all2 (\<lambda>p n. display_name p = Inr (JStr n)) (take 3 ?ps)
             [''Ann'', ''bo@x.io'', ''Unknown'']"
    by (simp add: display_name_def)
  have b: "join '', '' [''Ann'', ''bo@x.io'', ''Unknown'']
             @ (if 3 < length ?ps then '' (+'' @ str_int (int (length ?ps) - 3) @ '' more)'' else [])
           = ''Ann, bo@x.io, Unknown (+2 more)''"
    by code_simp
  from participants_truncated [OF a] b a show ?thesis by presburger
qed



text \<open>
  C8. For a search result whose \<^verbatim>\<open>data\<close> is the empty list (or any falsy value, or is
  missing), the list formatter returns exactly \<^verbatim>\<open>No conversations found.\<close>, whatever the
  rest of the result holds and whatever the date parser does.
\<close>

theorem no_conversations:
  assumes "dict_get result ''data'' (JList []) = Inr data" and "\<not> truthy data"
  shows "format_search_results f result = Inr ''No conversations found.''"
proof (cases result)
  case (JObj kvs)
  then show ?thesis using assms by (simp add: format_search_results_def)
qed (use assms in simp_all)

theorem no_conversations_witness:
  "dict_get (JObj [(''data'', JList []), (''meta'', JStr ''x'')]) ''data'' (JList []) = Inr (JList [])
   \<and> \<not> truthy (JList [])
   \<and> format_search_results (\<lambda>s. None) (JObj [(''data'', JList []), (''meta'', JStr ''x'')])
       = Inr ''No conversations found.''"
  using no_conversations [of "JObj [(''data'', JList []), (''meta'', JStr ''x'')]" "JList []" "\<lambda>s. None"]
  by simp


section \<open>The conversation detail formatter\<close>





section \<open>The API client\<close>



end
